theory Spec2Isabelle
  imports Main
begin

section \<open>Registrar and node catalog (phlex/core/registrar.hpp)\<close>

text \<open>
  A registrar points to two objects it shares with the rest of the graph construction:
  the node map \<open>nodes_\<close> (a \<open>simple_ptr_map<Ptr>\<close>, keyed by the full name of a node) and
  the error vector \<open>errors_\<close>. The model passes the pointees explicitly, as a
  \<open>registry\<close>. Its third field, \<open>calls\<close>, records every invocation of a creator
  together with the two arguments it received; it is the observable trace that tells how
  often a creator ran.

  The registrar is a template over the node pointer type; the model is polymorphic in
  the node type \<open>'n\<close> and takes \<open>ptr->full_name()\<close> as the function \<open>full_name\<close>.
  Field names drop the trailing underscore of the source.
\<close>

record 'n registry =
  nodes :: "string \<rightharpoonup> 'n"
  errors :: "string list"
  calls :: "(string list \<times> string list) list"

record 'n registrar =
  creator :: "(string list \<Rightarrow> string list \<Rightarrow> 'n) option"
  predicates :: "string list option"
  output_products :: "string list"

datatype registrar_error = Creator_unset

text \<open>The constructor leaves \<open>creator_\<close> empty, \<open>predicates_\<close> disengaged and
  \<open>output_products_\<close> empty.\<close>

definition registrar_init :: "'n registrar" where
  "registrar_init = \<lparr>creator = None, predicates = None, output_products = []\<rparr>"

definition has_predicates :: "'n registrar \<Rightarrow> bool" where
  "has_predicates r = (predicates r \<noteq> None)"

definition set_creator ::
  "(string list \<Rightarrow> string list \<Rightarrow> 'n) \<Rightarrow> 'n registrar \<Rightarrow> 'n registrar" where
  "set_creator c r = r\<lparr>creator := Some c\<rparr>"

definition set_predicates :: "string list option \<Rightarrow> 'n registrar \<Rightarrow> 'n registrar" where
  "set_predicates ps r = r\<lparr>predicates := ps\<rparr>"

text \<open>\<open>release_predicates\<close> moves the vector out of the optional: the result is the
  stored list or the empty list, and an engaged optional is left holding a moved-from
  (empty) vector.\<close>

definition release_predicates :: "'n registrar \<Rightarrow> string list \<times> 'n registrar" where
  "release_predicates r =
     (case predicates r of
        None \<Rightarrow> ([], r)
      | Some ps \<Rightarrow> (ps, r\<lparr>predicates := Some []\<rparr>))"

text \<open>\<open>std::map::try_emplace\<close>: the element is stored only when the key is absent; the
  flag tells whether it was.\<close>

definition try_emplace :: "('k \<rightharpoonup> 'v) \<Rightarrow> 'k \<Rightarrow> 'v \<Rightarrow> ('k \<rightharpoonup> 'v) \<times> bool" where
  "try_emplace m k v = (case m k of None \<Rightarrow> (m(k \<mapsto> v), True) | Some _ \<Rightarrow> (m, False))"

text \<open>
  Modelled from the spec: \<open>detail::add_to_error_messages\<close> is declared in registrar.hpp
  but defined in a file that is not among the sources. The spec says that inserting a
  duplicate full name "is recorded in a shared error-vector" and that a second
  registration gives "one duplicate error": one entry is appended. The wording of the
  entry is not given, so it is the parameter \<open>msg\<close>.
\<close>

definition add_to_error_messages ::
  "(string \<Rightarrow> string) \<Rightarrow> string list \<Rightarrow> string \<Rightarrow> string list" where
  "add_to_error_messages msg errs name = errs @ [msg name]"

text \<open>\<open>create_node\<close>: \<open>assert(creator_)\<close>, then the creator is called with the released
  predicates and the given labels, and the node is offered to the map under its full
  name; a refused insertion is reported.\<close>

definition create_node ::
  "(string \<Rightarrow> string) \<Rightarrow> ('n \<Rightarrow> string) \<Rightarrow> string list \<Rightarrow> 'n registrar \<Rightarrow> 'n registry
     \<Rightarrow> registrar_error + ('n registrar \<times> 'n registry)" where
  "create_node msg full_name output_product_labels r s =
     (case creator r of
        None \<Rightarrow> Inl Creator_unset
      | Some c \<Rightarrow>
          (let (ps, r') = release_predicates r;
               ptr = c ps output_product_labels;
               s1 = s\<lparr>calls := calls s @ [(ps, output_product_labels)]\<rparr>;
               name = full_name ptr;
               (nodes', inserted) = try_emplace (nodes s1) name ptr;
               s2 = s1\<lparr>nodes := nodes'\<rparr>
           in Inr (r', if \<not> inserted
                       then s2\<lparr>errors := add_to_error_messages msg (errors s2) name\<rparr>
                       else s2)))"

text \<open>\<open>set_output_products\<close> creates the node at once and then resets the creator.\<close>

definition set_output_products ::
  "(string \<Rightarrow> string) \<Rightarrow> ('n \<Rightarrow> string) \<Rightarrow> string list \<Rightarrow> 'n registrar \<Rightarrow> 'n registry
     \<Rightarrow> registrar_error + ('n registrar \<times> 'n registry)" where
  "set_output_products msg full_name outs r s =
     (case create_node msg full_name outs r s of
        Inl e \<Rightarrow> Inl e
      | Inr (r', s') \<Rightarrow> Inr (r'\<lparr>creator := None\<rparr>, s'))"

text \<open>The destructor \<open>~registrar\<close>: when a creator is still present the node is created
  from the stored \<open>output_products_\<close>; the registrar itself is gone afterwards, so only
  the registry is returned.\<close>

definition registrar_destructor ::
  "(string \<Rightarrow> string) \<Rightarrow> ('n \<Rightarrow> string) \<Rightarrow> 'n registrar \<Rightarrow> 'n registry
     \<Rightarrow> registrar_error + 'n registry" where
  "registrar_destructor msg full_name r s =
     (if creator r \<noteq> None
      then (case create_node msg full_name (output_products r) r s of
              Inl e \<Rightarrow> Inl e
            | Inr (_, s') \<Rightarrow> Inr s')
      else Inr s)"

text \<open>The predicates a creator receives: the stored list, or the empty list when none
  was set (\<open>value_or\<close>).\<close>

definition predicates_or_empty :: "'n registrar \<Rightarrow> string list" where
  "predicates_or_empty r = (case predicates r of None \<Rightarrow> [] | Some ps \<Rightarrow> ps)"


section \<open>Product store (phlex/model/product_store.hpp)\<close>

text \<open>
  The header declares the class; the member functions that are not templates are defined
  in a file that is not among the sources, as are \<open>level_id\<close> and \<open>products\<close>. Those
  parts are modelled from the spec, each under its own remark. The templates of the
  header (\<open>add_product\<close>, \<open>get_most_derived\<close>, \<open>most_derived\<close>) are modelled from
  their code.

  A store is a value holding its parent, so a store value is a snapshot of its whole
  ancestry, and "the same store" is equality of values. Products of all C++ types are
  values of one type \<open>'p\<close>.
\<close>

datatype stage = process | flush

text \<open>
  Modelled from the spec: \<open>level_id\<close> (phlex/model/level_id.hpp is missing). "An
  immutable sequence of (level_name, level_number) segments describing a path in the
  hierarchy"; the root is \<open>(job, 0)\<close>. The sequence is kept as a chain from the own
  segment to the root.
\<close>

datatype level_id =
  Level_id (id_parent: "level_id option") (id_level_name: string) (id_number: nat)

text \<open>
  Modelled from the spec: \<open>level_id::base_ptr()\<close> (level_id.hpp is missing), the
  identifier \<open>(job, 0)\<close> of the root.
\<close>

definition level_id_base :: level_id where
  "level_id_base = Level_id None ''job'' 0"

text \<open>
  Modelled from the spec: \<open>level_id::make_child\<close> (level_id.hpp is missing) extends the
  path by one segment.
\<close>

definition level_id_make_child :: "level_id \<Rightarrow> nat \<Rightarrow> string \<Rightarrow> level_id" where
  "level_id_make_child i new_level_number new_level_name =
     Level_id (Some i) new_level_name new_level_number"

datatype 'p product_store =
  Product_store
    (parent: "'p product_store option")
    (products: "string \<rightharpoonup> 'p")
    (store_id: level_id)
    (source: string)
    (stage: stage)

datatype store_error = Product_already_present string

text \<open>
  Modelled from the spec: \<open>base()\<close> (product_store.cpp is missing) is the "root store,
  stage=process, id = (job,0)"; it has no parent, no products and the empty source tag
  with which the header defaults it.
\<close>

definition base :: "'p product_store" where
  "base = Product_store None Map.empty level_id_base [] process"

text \<open>
  Modelled from the spec: \<open>make_child(level_number, level_name, source, products)\<close>
  (product_store.cpp is missing) gives a "child store of the given parent,
  stage=process, with new products embedded".
\<close>

definition make_child ::
  "'p product_store \<Rightarrow> nat \<Rightarrow> string \<Rightarrow> string \<Rightarrow> (string \<rightharpoonup> 'p) \<Rightarrow> 'p product_store" where
  "make_child s new_level_number new_level_name src new_products =
     Product_store (Some s) new_products
       (level_id_make_child (store_id s) new_level_number new_level_name) src process"

text \<open>
  Modelled from the spec: \<open>make_child(level_number, level_name, source, stage=process)\<close>
  (product_store.cpp is missing) gives a "child without products", in the stage asked
  for.
\<close>

definition make_child_stage ::
  "'p product_store \<Rightarrow> nat \<Rightarrow> string \<Rightarrow> string \<Rightarrow> stage \<Rightarrow> 'p product_store" where
  "make_child_stage s new_level_number new_level_name src st =
     Product_store (Some s) Map.empty
       (level_id_make_child (store_id s) new_level_number new_level_name) src st"

text \<open>
  Modelled from the spec: \<open>make_continuation(source, products)\<close> (product_store.cpp is
  missing) gives the "same level as parent, new products, same id", "a store with same
  id and parent as s". A store that carries products is a process store.
\<close>

definition make_continuation ::
  "'p product_store \<Rightarrow> string \<Rightarrow> (string \<rightharpoonup> 'p) \<Rightarrow> 'p product_store" where
  "make_continuation s src new_products =
     Product_store (parent s) new_products (store_id s) src process"

text \<open>
  Modelled from the spec: \<open>make_flush()\<close> (product_store.cpp is missing) gives a
  "sibling with stage=flush, empty products". The spec does not say which source tag a
  flush store gets; it is the parameter \<open>src\<close>.
\<close>

definition make_flush :: "string \<Rightarrow> 'p product_store \<Rightarrow> 'p product_store" where
  "make_flush src s = Product_store (parent s) Map.empty (store_id s) src flush"

text \<open>
  Modelled from the spec: \<open>is_flush()\<close> (product_store.cpp is missing) "is true iff
  stage = flush".
\<close>

definition is_flush :: "'p product_store \<Rightarrow> bool" where
  "is_flush s = (stage s = flush)"

text \<open>
  Modelled from the spec: \<open>level_name()\<close> (product_store.cpp is missing) is the level
  name of the last segment of the store's level identifier.
\<close>

definition level_name :: "'p product_store \<Rightarrow> string" where
  "level_name s = id_level_name (store_id s)"

text \<open>
  Modelled from the spec: \<open>contains_product(key)\<close> (product_store.cpp is missing) tells
  whether the store's own map "product_name \<rightarrow> product" has the key.
\<close>

definition contains_product :: "'p product_store \<Rightarrow> string \<Rightarrow> bool" where
  "contains_product s key = (products s key \<noteq> None)"

text \<open>
  Modelled from the spec: \<open>products::add\<close> (phlex/model/products.hpp is missing).
  "Product ops are append-only per key; re-adding the same key is a logic error."
\<close>

definition products_add ::
  "(string \<rightharpoonup> 'p) \<Rightarrow> string \<Rightarrow> 'p \<Rightarrow> store_error + (string \<rightharpoonup> 'p)" where
  "products_add ps key t =
     (if ps key \<noteq> None then Inl (Product_already_present key) else Inr (ps(key \<mapsto> t)))"

text \<open>\<open>add_product\<close> of the header: the product goes into \<open>products_\<close> of the store it
  is called on, whatever the stage of that store.\<close>

definition add_product :: "'p product_store \<Rightarrow> string \<Rightarrow> 'p \<Rightarrow> store_error + 'p product_store" where
  "add_product s key t =
     (case products_add (products s) key t of
        Inl e \<Rightarrow> Inl e
      | Inr ps \<Rightarrow> Inr (Product_store (parent s) ps (store_id s) (source s) (stage s)))"

text \<open>The chain of stores above a store, nearest first, and the same chain with the
  store itself in front.\<close>

fun ancestors :: "'p product_store \<Rightarrow> 'p product_store list" where
  "ancestors (Product_store None ps i src st) = []"
| "ancestors (Product_store (Some p) ps i src st) = p # ancestors p"

definition ancestors_or_self :: "'p product_store \<Rightarrow> 'p product_store list" where
  "ancestors_or_self s = s # ancestors s"

definition is_ancestor :: "'p product_store \<Rightarrow> 'p product_store \<Rightarrow> bool" where
  "is_ancestor a b = (a \<in> set (ancestors b))"

text \<open>
  Modelled from the spec: \<open>store_for_product(name)\<close> (product_store.cpp is missing)
  "walks up ancestors until a store owning name is found; returns null if none". The
  walk starts at the store itself: a store that contains the product answers its own
  query.
\<close>

fun store_for_product :: "'p product_store \<Rightarrow> string \<Rightarrow> 'p product_store option" where
  "store_for_product (Product_store par ps i src st) product_name =
     (if contains_product (Product_store par ps i src st) product_name
      then Some (Product_store par ps i src st)
      else (case par of None \<Rightarrow> None | Some p \<Rightarrow> store_for_product p product_name))"

text \<open>
  Modelled from the spec: \<open>parent(level_name)\<close> (product_store.cpp is missing) gives the
  "nearest ancestor with matching level name (or null)". The walk starts at the store
  itself, since the spec has \<open>base().make_child(1, "run", "", {}).parent("run")\<close> be
  "that same child". \<open>parent()\<close> without an argument is the stored parent, the selector
  \<open>parent\<close>.
\<close>

fun parent_named :: "'p product_store \<Rightarrow> string \<Rightarrow> 'p product_store option" where
  "parent_named (Product_store par ps i src st) name =
     (if level_name (Product_store par ps i src st) = name
      then Some (Product_store par ps i src st)
      else (case par of None \<Rightarrow> None | Some p \<Rightarrow> parent_named p name))"

text \<open>
  Modelled from the spec: \<open>more_derived\<close> is declared in the header and defined in the
  missing file. "Selects, among two stores, the one deeper in the hierarchy (descendant
  wins; if incomparable, the second)."
\<close>

definition more_derived :: "'p product_store \<Rightarrow> 'p product_store \<Rightarrow> 'p product_store" where
  "more_derived a b = (if is_ancestor b a then a else b)"

text \<open>
  \<open>get_most_derived<I>(tup, element)\<close> and \<open>most_derived(tup)\<close>, from the header. A tuple
  of stores is a list; \<open>N\<close> is its length. An index outside the tuple and the empty tuple
  do not compile (\<open>std::get\<close>, \<open>static_assert(N > 0)\<close>); the model answers \<open>None\<close>
  there.
\<close>

function get_most_derived ::
  "nat \<Rightarrow> 'p product_store list \<Rightarrow> 'p product_store \<Rightarrow> 'p product_store option" where
  "get_most_derived i tup element =
     (if length tup \<le> i then None
      else if i = length tup - 1 then Some (more_derived element (tup ! i))
      else get_most_derived (i + 1) tup (more_derived element (tup ! i)))"
  by pat_completeness auto
termination
  by (relation "measure (\<lambda>(i, tup, element). length tup - i)") auto

definition most_derived :: "'p product_store list \<Rightarrow> 'p product_store option" where
  "most_derived tup =
     (if length tup = 0 then None
      else if length tup = 1 then Some (tup ! 0)
      else get_most_derived 1 tup (tup ! 0))"


section \<open>Fold registration (phlex/core/graph_proxy.hpp, phlex/core/registration_api.hpp)\<close>

text \<open>\<open>algorithm_name\<close>, from its header: plugin, algorithm and the tag telling which
  of the two were specified.\<close>

datatype specified_fields = neither | either | both

record algorithm_name =
  plugin :: string
  algorithm :: string
  name_fields :: specified_fields

text \<open>
  Modelled from the spec: \<open>concurrency\<close> (phlex/concurrency.hpp is missing). The
  concurrency limit is "k \<in> {1, unlimited, n}", carried as a number of permits in the
  member \<open>value\<close>, and "serial is a single-permit node".
\<close>

record concurrency =
  concurrency_value :: nat

text \<open>
  Modelled from the spec: \<open>concurrency::serial\<close> (phlex/concurrency.hpp is missing),
  the limit of "a single-permit node".
\<close>

definition serial :: concurrency where
  "serial = \<lparr>concurrency_value = 1\<rparr>"

text \<open>
  Modelled from the spec: \<open>fold_node\<close> (phlex/core/declared_fold.hpp is missing). A node
  has, as attributes, its name, input labels, upstream predicate names, output product
  names, concurrency limit and, for folds, the partition key and the initial state. The
  record keeps what the constructor call in \<open>fold_api::input_family\<close> passes, in that
  order (the graph reference apart). The types of the algorithm, of the initial state and
  of the input labels are parameters.
\<close>

record ('a, 'i, 'l) fold_node =
  node_name :: algorithm_name
  node_concurrency :: nat
  node_predicates :: "string list"
  node_algorithm :: 'a
  node_init :: 'i
  node_inputs :: "'l list"
  node_output_products :: "string list"
  node_partition :: string

text \<open>\<open>fold_api\<close>: the members set by its constructor. \<open>make_algorithm_name\<close> is
  defined in a header that is not among the sources and is the parameter \<open>mk_name\<close>; the
  registrar comes fresh from \<open>nodes.registrar_for\<close>.\<close>

record ('c, 'a, 'i, 'l) fold_api =
  api_config :: 'c
  api_name :: algorithm_name
  api_alg :: 'a
  api_concurrency :: concurrency
  api_partition :: string
  api_init :: 'i
  api_registrar :: "('a, 'i, 'l) fold_node registrar"

definition fold_api_init ::
  "('c \<Rightarrow> string \<Rightarrow> algorithm_name) \<Rightarrow> 'c \<Rightarrow> string \<Rightarrow> 'a \<Rightarrow> concurrency \<Rightarrow> string \<Rightarrow> 'i
     \<Rightarrow> ('c, 'a, 'i, 'l) fold_api" where
  "fold_api_init mk_name config name alg c part init_args =
     \<lparr>api_config = config, api_name = mk_name config name, api_alg = alg,
      api_concurrency = c, api_partition = part, api_init = init_args,
      api_registrar = registrar_init\<rparr>"

text \<open>\<open>fold_api::input_family\<close> stores the creator of the fold node in the registrar and
  hands the registrar on, together with the configuration.\<close>

definition fold_api_input_family ::
  "('c, 'a, 'i, 'l) fold_api \<Rightarrow> 'l list \<Rightarrow> ('a, 'i, 'l) fold_node registrar \<times> 'c" where
  "fold_api_input_family api input_args =
     (set_creator
        (\<lambda>preds outs.
           \<lparr>node_name = api_name api,
            node_concurrency = concurrency_value (api_concurrency api),
            node_predicates = preds,
            node_algorithm = api_alg api,
            node_init = api_init api,
            node_inputs = input_args,
            node_output_products = outs,
            node_partition = api_partition api\<rparr>)
        (api_registrar api),
      api_config api)"

text \<open>
  Modelled from the spec: \<open>glue::fold\<close> (phlex/core/glue.hpp is missing). The proxy
  "returns intermediate builders that accept input_family(labels...)" and member-function
  algorithms "are dispatched against" the bound instance: the glue pairs the algorithm
  with the bound object and constructs the \<open>fold_api\<close> from the arguments it is given.
\<close>

record ('c, 'b) glue =
  glue_bound_obj :: "'b option"
  glue_config :: 'c

definition glue_fold ::
  "('c \<Rightarrow> string \<Rightarrow> algorithm_name) \<Rightarrow> ('c, 'b) glue \<Rightarrow> string \<Rightarrow> 'f \<Rightarrow> concurrency \<Rightarrow> string \<Rightarrow> 'i
     \<Rightarrow> ('c, 'b option \<times> 'f, 'i, 'l) fold_api" where
  "glue_fold mk_name g name f c part init_args =
     fold_api_init mk_name (glue_config g) name (glue_bound_obj g, f) c part init_args"

text \<open>\<open>graph_proxy\<close>: configuration and bound object (the graph, the node catalog and
  the error vector are the registry of the first section). \<open>create_glue\<close> passes the
  bound object only when asked to.\<close>

record ('c, 'b) graph_proxy =
  proxy_config :: 'c
  proxy_bound_obj :: "'b option"

definition create_glue :: "('c, 'b) graph_proxy \<Rightarrow> bool \<Rightarrow> ('c, 'b) glue" where
  "create_glue p use_bound_object =
     \<lparr>glue_bound_obj = (if use_bound_object then proxy_bound_obj p else None),
      glue_config = proxy_config p\<rparr>"

text \<open>\<open>graph_proxy::fold\<close>. The two defaulted parameters are options: \<open>None\<close> stands for
  an argument left out at the call, which takes \<open>concurrency::serial\<close> and \<open>"job"\<close>.\<close>

definition graph_proxy_fold ::
  "('c \<Rightarrow> string \<Rightarrow> algorithm_name) \<Rightarrow> ('c, 'b) graph_proxy \<Rightarrow> string \<Rightarrow> 'f
     \<Rightarrow> concurrency option \<Rightarrow> string option \<Rightarrow> 'i
     \<Rightarrow> ('c, 'b option \<times> 'f, 'i, 'l) fold_api" where
  "graph_proxy_fold mk_name p name f c part init_args =
     glue_fold mk_name (create_glue p True) name f
       (case c of None \<Rightarrow> serial | Some c' \<Rightarrow> c')
       (case part of None \<Rightarrow> ''job'' | Some q \<Rightarrow> q)
       init_args"


section \<open>Writing a batch through FORM (form/form/form.cpp)\<close>

text \<open>\<open>mock_phlex::product_base\<close>: label, id, data pointer and type index.\<close>

record ('d, 't) product_base =
  pb_label :: string
  pb_id :: string
  pb_data :: 'd
  pb_type :: 't

text \<open>
  Modelled from the spec: the persistence layer behind \<open>m_pers\<close> (its interface header
  is missing). The spec gives the contract \<open>createContainers(creator, {product\<rightarrow>type})\<close>,
  \<open>registerWrite(creator, product, data, type)\<close>, \<open>commitOutput(creator, id)\<close>. The
  model records the calls made, in order.
\<close>

datatype 'd persistence_op =
  CreateContainers string "string \<rightharpoonup> string"
| RegisterWrite string string 'd string
| CommitOutput string string

datatype form_error = Runtime_error string

text \<open>\<open>form_interface\<close>: the calls made on \<open>m_pers\<close> so far, the type-name table
  \<open>m_type_map->names\<close> and the table \<open>m_product_to_config\<close> built by the constructor.\<close>

record ('d, 't, 'c) form_interface =
  m_pers :: "'d persistence_op list"
  names :: "'t \<rightharpoonup> string"
  m_product_to_config :: "string \<rightharpoonup> 'c"

text \<open>\<open>names[pb.type]\<close> on a \<open>std::unordered_map\<close>: a missing key is entered with the
  empty string, which is the result.\<close>

definition names_index :: "('t \<rightharpoonup> string) \<Rightarrow> 't \<Rightarrow> string \<times> ('t \<rightharpoonup> string)" where
  "names_index m t = (case m t of None \<Rightarrow> ([], m(t \<mapsto> [])) | Some n \<Rightarrow> (n, m))"

text \<open>\<open>std::map::insert\<close> of a pair keeps an entry that is already there.\<close>

definition map_insert :: "('k \<rightharpoonup> 'v) \<Rightarrow> 'k \<Rightarrow> 'v \<Rightarrow> ('k \<rightharpoonup> 'v)" where
  "map_insert m k v = (case m k of None \<Rightarrow> m(k \<mapsto> v) | Some _ \<Rightarrow> m)"

text \<open>The first loop of the batch \<open>write\<close> fills \<open>products\<close>; the second one registers
  one write per element.\<close>

fun collect_products ::
  "('t \<rightharpoonup> string) \<Rightarrow> (string \<rightharpoonup> string) \<Rightarrow> ('d, 't) product_base list
     \<Rightarrow> (string \<rightharpoonup> string) \<times> ('t \<rightharpoonup> string)" where
  "collect_products nm prods [] = (prods, nm)"
| "collect_products nm prods (pb # batch) =
     (let (ty, nm') = names_index nm (pb_type pb)
      in collect_products nm' (map_insert prods (pb_label pb) ty) batch)"

fun register_writes ::
  "string \<Rightarrow> ('t \<rightharpoonup> string) \<Rightarrow> 'd persistence_op list \<Rightarrow> ('d, 't) product_base list
     \<Rightarrow> 'd persistence_op list \<times> ('t \<rightharpoonup> string)" where
  "register_writes cr nm ops [] = (ops, nm)"
| "register_writes cr nm ops (pb # batch) =
     (let (ty, nm') = names_index nm (pb_type pb)
      in register_writes cr nm' (ops @ [RegisterWrite cr (pb_label pb) (pb_data pb) ty])
           batch)"

text \<open>\<open>form_interface::write(creator, batch)\<close>.\<close>

definition write_batch ::
  "('d, 't, 'c) form_interface \<Rightarrow> string \<Rightarrow> ('d, 't) product_base list
     \<Rightarrow> form_error + ('d, 't, 'c) form_interface" where
  "write_batch fi cr batch =
     (case batch of
        [] \<Rightarrow> Inr fi
      | pb0 # _ \<Rightarrow>
          (case m_product_to_config fi (pb_label pb0) of
             None \<Rightarrow> Inl (Runtime_error (''No configuration found for product: '' @ pb_label pb0))
           | Some _ \<Rightarrow>
               (let (prods, nm1) = collect_products (names fi) Map.empty batch;
                    ops1 = m_pers fi @ [CreateContainers cr prods];
                    (ops2, nm2) = register_writes cr nm1 ops1 batch;
                    ops3 = ops2 @ [CommitOutput cr (pb_id pb0)]
                in Inr (fi\<lparr>m_pers := ops3, names := nm2\<rparr>))))"

text \<open>The type name a lookup yields, whether or not the key was there before.\<close>

definition type_name :: "('t \<rightharpoonup> string) \<Rightarrow> 't \<Rightarrow> string" where
  "type_name m t = (case m t of None \<Rightarrow> [] | Some n \<Rightarrow> n)"

text \<open>The \<open>registerWrite\<close> call made for one element of a batch.\<close>

definition register_op ::
  "string \<Rightarrow> ('t \<rightharpoonup> string) \<Rightarrow> ('d, 't) product_base \<Rightarrow> 'd persistence_op" where
  "register_op cr nm pb =
     RegisterWrite cr (pb_label pb) (pb_data pb) (type_name nm (pb_type pb))"

definition is_RegisterWrite :: "'d persistence_op \<Rightarrow> bool" where
  "is_RegisterWrite op = (case op of RegisterWrite _ _ _ _ \<Rightarrow> True | _ \<Rightarrow> False)"

definition is_CommitOutput :: "'d persistence_op \<Rightarrow> bool" where
  "is_CommitOutput op = (case op of CommitOutput _ _ \<Rightarrow> True | _ \<Rightarrow> False)"


section \<open>Properties of the registrar\<close>

text \<open>What one run of \<open>create_node\<close> does when a creator is present: the creator is
  called once, with the released predicates and the labels, and the node is offered to
  the map under its full name.\<close>

lemma create_node_fires:
  assumes "creator r = Some c"
  shows "create_node msg full_name labels r s =
     Inr (snd (release_predicates r),
          (let node = c (predicates_or_empty r) labels; name = full_name node in
           s\<lparr>calls := calls s @ [(predicates_or_empty r, labels)],
             nodes := (case nodes s name of
                         None \<Rightarrow> (nodes s)(name \<mapsto> node) | Some _ \<Rightarrow> nodes s),
             errors := (case nodes s name of
                          None \<Rightarrow> errors s | Some _ \<Rightarrow> errors s @ [msg name])\<rparr>))"
  using assms
  by (simp add: create_node_def release_predicates_def predicates_or_empty_def try_emplace_def
      add_to_error_messages_def Let_def split: option.splits)

text \<open>
  Claim C1. When a registrar whose creator is set (not yet fired or cleared) is destroyed,
  the creator is invoked exactly once: the trace of invocations grows by the single entry
  made of the stored predicates (the empty list when none was set) and the stored
  output-products list. The node it returns is inserted into the catalog under its full
  name, by the map's \<open>try_emplace\<close>; with a name that is new to the catalog the node is
  the entry found under that name afterwards and no error is recorded.
\<close>

theorem registrar_destructor_fires_creator:
  assumes "creator r = Some c"
  shows "\<exists>s'. registrar_destructor msg full_name r s = Inr s'
     \<and> calls s' = calls s @ [(predicates_or_empty r, output_products r)]
     \<and> nodes s' = fst (try_emplace (nodes s)
                         (full_name (c (predicates_or_empty r) (output_products r)))
                         (c (predicates_or_empty r) (output_products r)))
     \<and> (nodes s (full_name (c (predicates_or_empty r) (output_products r))) = None \<longrightarrow>
          nodes s' (full_name (c (predicates_or_empty r) (output_products r)))
            = Some (c (predicates_or_empty r) (output_products r))
          \<and> errors s' = errors s)"
  using assms
  by (simp add: registrar_destructor_def create_node_fires try_emplace_def Let_def
      split: option.splits)

theorem registrar_destructor_fires_creator_witness:
  "\<exists>s'. registrar_destructor (\<lambda>n. ''duplicate: '' @ n) fst
           \<lparr>creator = Some (\<lambda>ps outs. (''mod:double'', ps, outs)), predicates = None,
            output_products = [''y'']\<rparr>
           \<lparr>nodes = Map.empty, errors = [], calls = []\<rparr> = Inr s'
     \<and> calls s' = [([], [''y''])]
     \<and> nodes s' ''mod:double'' = Some (''mod:double'', [], [''y''])
     \<and> errors s' = []"
  using registrar_destructor_fires_creator
    [of "\<lparr>creator = Some (\<lambda>ps outs. (''mod:double'', ps, outs)), predicates = None,
            output_products = [''y'']\<rparr>"
        "\<lambda>ps outs. (''mod:double'', ps, outs)"
        "\<lambda>n. ''duplicate: '' @ n" fst
        "\<lparr>nodes = Map.empty, errors = [], calls = []\<rparr>"]
  by (auto simp add: predicates_or_empty_def)

text \<open>
  Claim C2. Whatever the state of the catalog, a second registration of a node whose full
  name is already in the catalog leaves the catalog as it was, so the name keeps its one
  entry, the first one, and appends exactly one duplicate-registration message to the
  error vector.
\<close>

theorem duplicate_registration_keeps_first:
  assumes "creator r = Some c"
      and "nodes s (full_name (c (predicates_or_empty r) labels)) = Some first"
  shows "\<exists>r' s'. create_node msg full_name labels r s = Inr (r', s')
       \<and> nodes s' = nodes s
       \<and> nodes s' (full_name (c (predicates_or_empty r) labels)) = Some first
       \<and> errors s' = errors s @ [msg (full_name (c (predicates_or_empty r) labels))]"
  using assms by (simp add: create_node_fires Let_def)

theorem duplicate_registration_keeps_first_witness:
  "\<exists>r' s'. create_node (\<lambda>n. ''duplicate: '' @ n) fst [''z'']
           \<lparr>creator = Some (\<lambda>ps outs. (''mod:double'', ps, outs)), predicates = Some [''pos''],
            output_products = []\<rparr>
           \<lparr>nodes = [''mod:double'' \<mapsto> (''mod:double'', [], [''y''])], errors = [],
            calls = [([], [''y''])]\<rparr> = Inr (r', s')
     \<and> nodes s' ''mod:double'' = Some (''mod:double'', [], [''y''])
     \<and> errors s' = [''duplicate: mod:double'']"
  using duplicate_registration_keeps_first
    [of "\<lparr>creator = Some (\<lambda>ps outs. (''mod:double'', ps, outs)), predicates = Some [''pos''],
            output_products = []\<rparr>"
        "\<lambda>ps outs. (''mod:double'', ps, outs)"
        "\<lparr>nodes = [''mod:double'' \<mapsto> (''mod:double'', [], [''y''])], errors = [],
            calls = [([], [''y''])]\<rparr>"
        fst "[''z'']" "(''mod:double'', [], [''y''])" "\<lambda>n. ''duplicate: '' @ n"]
  by (auto simp add: predicates_or_empty_def)

text \<open>
  Claim C3. \<open>output_products(...)\<close> on a registrar with a creator constructs the node at
  once (one invocation of the creator, with the given output products), inserts it into
  the catalog under its full name and clears the creator, so that the destructor which
  follows changes nothing: no second node is constructed. Without \<open>output_products\<close> the
  destructor makes the one invocation. Either way the statement constructs and registers
  exactly one node.
\<close>

theorem output_products_registers_once:
  assumes "creator r = Some c"
  shows "(\<exists>r' s'. set_output_products msg full_name outs r s = Inr (r', s')
           \<and> creator r' = None
           \<and> calls s' = calls s @ [(predicates_or_empty r, outs)]
           \<and> nodes s' = fst (try_emplace (nodes s)
                               (full_name (c (predicates_or_empty r) outs))
                               (c (predicates_or_empty r) outs))
           \<and> registrar_destructor msg full_name r' s' = Inr s')
       \<and> (\<exists>s''. registrar_destructor msg full_name r s = Inr s''
           \<and> calls s'' = calls s @ [(predicates_or_empty r, output_products r)])"
  using assms
  by (simp add: set_output_products_def registrar_destructor_def create_node_fires
      try_emplace_def Let_def split: option.splits)

theorem output_products_registers_once_witness:
  "(\<exists>r' s'. set_output_products (\<lambda>n. ''duplicate: '' @ n) fst [''y'']
           \<lparr>creator = Some (\<lambda>ps outs. (''mod:double'', ps, outs)), predicates = Some [''pos''],
            output_products = []\<rparr>
           \<lparr>nodes = Map.empty, errors = [], calls = []\<rparr> = Inr (r', s')
       \<and> creator r' = None
       \<and> calls s' = [([''pos''], [''y''])]
       \<and> nodes s' ''mod:double'' = Some (''mod:double'', [''pos''], [''y''])
       \<and> registrar_destructor (\<lambda>n. ''duplicate: '' @ n) fst r' s' = Inr s')
   \<and> (\<exists>s''. registrar_destructor (\<lambda>n. ''duplicate: '' @ n) fst
           \<lparr>creator = Some (\<lambda>ps outs. (''mod:double'', ps, outs)), predicates = Some [''pos''],
            output_products = []\<rparr>
           \<lparr>nodes = Map.empty, errors = [], calls = []\<rparr> = Inr s''
       \<and> calls s'' = [([''pos''], [])])"
  using output_products_registers_once
    [of "\<lparr>creator = Some (\<lambda>ps outs. (''mod:double'', ps, outs)), predicates = Some [''pos''],
            output_products = []\<rparr>"
        "\<lambda>ps outs. (''mod:double'', ps, outs)"
        "\<lambda>n. ''duplicate: '' @ n" fst "[''y'']"
        "\<lparr>nodes = Map.empty, errors = [], calls = []\<rparr>"]
  by (auto simp add: predicates_or_empty_def try_emplace_def)


section \<open>Properties of the product store\<close>

subsection \<open>Ancestry\<close>

lemma ancestors_shorter:
  "a \<in> set (ancestors b) \<Longrightarrow> length (ancestors a) < length (ancestors b)"
proof (induction b rule: ancestors.induct)
  case (1 ps i src st)
  then show ?case by simp
next
  case (2 p ps i src st)
  then show ?case by auto
qed

lemma is_ancestor_asym: "is_ancestor a b \<Longrightarrow> \<not> is_ancestor b a"
proof
  assume "is_ancestor a b" and "is_ancestor b a"
  then have "length (ancestors a) < length (ancestors b)"
    and "length (ancestors b) < length (ancestors a)"
    by (simp_all add: is_ancestor_def ancestors_shorter)
  then show False by simp
qed

subsection \<open>The most derived store of a tuple\<close>

lemma get_most_derived_foldl:
  "i < length tup \<Longrightarrow>
     get_most_derived i tup element = Some (foldl more_derived element (drop i tup))"
proof (induction i tup element rule: get_most_derived.induct)
  case (1 i tup element)
  show ?case
  proof (cases "i = length tup - 1")
    case True
    with "1.prems" have "drop i tup = [tup ! i]"
      by (metis Cons_nth_drop_Suc Suc_diff_1 drop_all le_refl length_greater_0_conv
          list.size(3) not_less_zero)
    with True "1.prems" show ?thesis by simp
  next
    case False
    with "1.prems" have lt: "i + 1 < length tup" by arith
    have "drop i tup = tup ! i # drop (i + 1) tup"
      using "1.prems" by (simp add: Cons_nth_drop_Suc)
    with False "1.prems" lt "1.IH" show ?thesis by simp
  qed
qed

lemma most_derived_foldl:
  "tup \<noteq> [] \<Longrightarrow> most_derived tup = Some (foldl more_derived (hd tup) (tl tup))"
proof (cases tup)
  case Nil
  then show "tup \<noteq> [] \<Longrightarrow> ?thesis" by simp
next
  case (Cons x xs)
  show "tup \<noteq> [] \<Longrightarrow> ?thesis"
  proof (cases xs)
    case Nil
    with Cons show ?thesis by (simp add: most_derived_def)
  next
    case (Cons y ys)
    with \<open>tup = x # xs\<close> have "1 < length tup" by simp
    from get_most_derived_foldl[OF this, of x] Cons \<open>tup = x # xs\<close>
    show ?thesis by (simp add: most_derived_def)
  qed
qed

text \<open>
  Claim C4. For a pair of stores of which the first is an ancestor of the second,
  \<open>most_derived\<close> gives the second (and when the second is an ancestor of the first,
  the first: the descendant wins); for two stores neither of which is an ancestor of the
  other it gives the second; and for a tuple of any positive size it gives the left fold
  of the binary operation over the elements in their order.
\<close>

theorem most_derived_descendant_wins:
  "(is_ancestor a b \<longrightarrow> most_derived [a, b] = Some b)
   \<and> (is_ancestor b a \<longrightarrow> most_derived [a, b] = Some a)
   \<and> (\<not> is_ancestor a b \<and> \<not> is_ancestor b a \<longrightarrow> most_derived [a, b] = Some b)
   \<and> (tup \<noteq> [] \<longrightarrow> most_derived tup = Some (foldl more_derived (hd tup) (tl tup)))"
  using is_ancestor_asym[of a b] most_derived_foldl[of tup] most_derived_foldl[of "[a, b]"]
  by (auto simp add: more_derived_def)

theorem most_derived_descendant_wins_witness:
  "(let root = (base :: nat product_store);
        run1 = make_child root 1 ''run'' [] Map.empty;
        run2 = make_child root 2 ''run'' [] Map.empty;
        event = make_child run1 5 ''event'' [] Map.empty
    in is_ancestor root event
       \<and> most_derived [root, event] = Some event
       \<and> most_derived [event, run1] = Some event
       \<and> \<not> is_ancestor event run2 \<and> \<not> is_ancestor run2 event
       \<and> most_derived [event, run2] = Some run2
       \<and> most_derived [root, event, run1]
           = Some (more_derived (more_derived root event) run1)
       \<and> most_derived [root, event, run1] = Some event)"
proof -
  let ?root = "base :: nat product_store"
  let ?run1 = "make_child ?root 1 ''run'' [] Map.empty"
  let ?run2 = "make_child ?root 2 ''run'' [] Map.empty"
  let ?event = "make_child ?run1 5 ''event'' [] Map.empty"
  have anc: "is_ancestor ?root ?event" "is_ancestor ?run1 ?event"
    by (simp_all add: is_ancestor_def make_child_def)
  have inc: "\<not> is_ancestor ?event ?run2" "\<not> is_ancestor ?run2 ?event"
    by (simp_all add: is_ancestor_def make_child_def base_def level_id_make_child_def)
  have ne: "[?root, ?event, ?run1] \<noteq> []" by simp
  from most_derived_descendant_wins[of ?root ?event "[?root, ?event, ?run1]"]
    most_derived_descendant_wins[of ?event ?run1 "[]"]
    most_derived_descendant_wins[of ?event ?run2 "[]"]
    anc inc ne
  have "most_derived [?root, ?event] = Some ?event"
    and "most_derived [?event, ?run1] = Some ?event"
    and "most_derived [?event, ?run2] = Some ?run2"
    and f: "most_derived [?root, ?event, ?run1]
       = Some (more_derived (more_derived ?root ?event) ?run1)"
    by simp_all
  moreover have "more_derived (more_derived ?root ?event) ?run1 = ?event"
    using anc is_ancestor_asym[OF anc(1)] by (simp add: more_derived_def)
  ultimately show ?thesis using anc inc by (simp add: Let_def)
qed

subsection \<open>Looking a product or a level up\<close>

lemma store_for_product_find:
  "store_for_product t p = find (\<lambda>a. contains_product a p) (ancestors_or_self t)"
  unfolding ancestors_or_self_def
proof (induction t p rule: store_for_product.induct)
  case (1 par ps i src st product_name)
  then show ?case by (cases par) simp_all
qed

lemma parent_named_find:
  "parent_named s name = find (\<lambda>a. level_name a = name) (ancestors_or_self s)"
  unfolding ancestors_or_self_def
proof (induction s name rule: parent_named.induct)
  case (1 par ps i src st name)
  then show ?case by (cases par) simp_all
qed

text \<open>
  Claim C5. When a store \<open>s\<close> contains the product \<open>p\<close>, \<open>store_for_product(p)\<close> called
  on \<open>s\<close> or on any descendant \<open>t\<close> of \<open>s\<close> returns a store that is \<open>t\<close> or an ancestor
  of \<open>t\<close> and contains \<open>p\<close> (the nearest such store); called on a store none of whose
  ancestors, itself included, contains \<open>p\<close>, it returns null.
\<close>

theorem store_for_product_finds_owner:
  "(s \<in> set (ancestors_or_self t) \<and> contains_product s p \<longrightarrow>
      (\<exists>r. store_for_product t p = Some r \<and> r \<in> set (ancestors_or_self t)
           \<and> contains_product r p))
   \<and> ((\<forall>a \<in> set (ancestors_or_self t). \<not> contains_product a p) \<longrightarrow>
        store_for_product t p = None)
   \<and> store_for_product t p = find (\<lambda>a. contains_product a p) (ancestors_or_self t)"
proof (intro conjI impI)
  assume h: "s \<in> set (ancestors_or_self t) \<and> contains_product s p"
  then have "find (\<lambda>a. contains_product a p) (ancestors_or_self t) \<noteq> None"
    by (auto simp add: find_None_iff)
  then obtain r where r: "find (\<lambda>a. contains_product a p) (ancestors_or_self t) = Some r"
    by auto
  then have "r \<in> set (ancestors_or_self t) \<and> contains_product r p"
    by (auto simp add: find_Some_iff)
  with r show "\<exists>r. store_for_product t p = Some r \<and> r \<in> set (ancestors_or_self t)
      \<and> contains_product r p"
    by (simp add: store_for_product_find)
next
  assume "\<forall>a \<in> set (ancestors_or_self t). \<not> contains_product a p"
  then show "store_for_product t p = None"
    by (simp add: store_for_product_find find_None_iff)
next
  show "store_for_product t p = find (\<lambda>a. contains_product a p) (ancestors_or_self t)"
    by (rule store_for_product_find)
qed

theorem store_for_product_finds_owner_witness:
  "(let job = Product_store None [''x'' \<mapsto> (3::nat)] level_id_base [] process;
        event = make_child (make_child job 1 ''run'' [] Map.empty) 7 ''event'' []
                  [''y'' \<mapsto> 6]
    in job \<in> set (ancestors_or_self event) \<and> contains_product job ''x''
       \<and> (\<exists>r. store_for_product event ''x'' = Some r \<and> contains_product r ''x'')
       \<and> store_for_product event ''z'' = None)"
proof -
  let ?job = "Product_store None [''x'' \<mapsto> (3::nat)] level_id_base [] process"
  let ?event = "make_child (make_child ?job 1 ''run'' [] Map.empty) 7 ''event'' []
                  [''y'' \<mapsto> 6]"
  have own: "?job \<in> set (ancestors_or_self ?event) \<and> contains_product ?job ''x''"
    by (simp add: ancestors_or_self_def make_child_def contains_product_def)
  have none: "\<forall>a \<in> set (ancestors_or_self ?event). \<not> contains_product a ''z''"
    by (simp add: ancestors_or_self_def make_child_def contains_product_def)
  from store_for_product_finds_owner[of ?job ?event "''x''"] own
  have "\<exists>r. store_for_product ?event ''x'' = Some r \<and> contains_product r ''x''"
    by blast
  moreover from store_for_product_finds_owner[of ?job ?event "''z''"] none
  have "store_for_product ?event ''z'' = None"
    by blast
  ultimately show ?thesis using own by (simp add: Let_def)
qed

text \<open>
  Claim C6. For the child \<open>c = base().make_child(1, "run", "", {})\<close>, \<open>c.parent("run")\<close>
  is \<open>c\<close> itself and \<open>c.parent()\<close> is the base store (whichever overload of
  \<open>make_child\<close> the empty braces select, the child is the same); in general
  \<open>parent(level_name)\<close> is the nearest store on the way up whose level name matches,
  the walk starting at the store itself (as the first statement needs), or null when
  there is none.
\<close>

theorem parent_named_nearest:
  "parent_named (make_child base 1 ''run'' [] Map.empty) ''run''
     = Some (make_child base 1 ''run'' [] Map.empty)
   \<and> parent (make_child base 1 ''run'' [] Map.empty) = Some base
   \<and> make_child_stage base 1 ''run'' [] process = make_child base 1 ''run'' [] Map.empty
   \<and> parent_named s name = find (\<lambda>a. level_name a = name) (ancestors_or_self s)"
  by (simp add: parent_named_find)
    (simp add: make_child_def make_child_stage_def level_name_def level_id_make_child_def
      ancestors_or_self_def)

text \<open>
  Claim C7. For every store \<open>s\<close> and every set of products, the empty one included,
  \<open>make_continuation(source, products)\<close> called on \<open>s\<close> gives a store with the level
  identifier of \<open>s\<close> and the parent of \<open>s\<close> that carries the new products; so it
  has the level name and the ancestors of \<open>s\<close> as well.
\<close>

theorem make_continuation_same_id_parent:
  "store_id (make_continuation s src new_products) = store_id s
   \<and> parent (make_continuation s src new_products) = parent s
   \<and> products (make_continuation s src new_products) = new_products
   \<and> store_id (make_continuation s src Map.empty) = store_id s
   \<and> parent (make_continuation s src Map.empty) = parent s
   \<and> level_name (make_continuation s src new_products) = level_name s
   \<and> ancestors (make_continuation s src new_products) = ancestors s"
proof -
  have "ancestors (make_continuation s src new_products) = ancestors s"
  proof (cases s)
    case (Product_store par ps i sr st)
    then show ?thesis by (cases par) (simp_all add: make_continuation_def)
  qed
  then show ?thesis by (simp add: make_continuation_def level_name_def)
qed

text \<open>
  Claim C8, as stated, ends with "flush stores never carry products". \<open>add_product\<close>
  does not look at the stage: a product added to the flush store made from the base
  store is contained in a store whose stage is flush.
\<close>

theorem flush_store_carries_product_counterexample:
  "add_product (make_flush [] (base :: nat product_store)) ''x'' 7
     = Inr (Product_store None [''x'' \<mapsto> 7] level_id_base [] flush)
   \<and> is_flush (Product_store None [''x'' \<mapsto> (7::nat)] level_id_base [] flush)
   \<and> contains_product (Product_store None [''x'' \<mapsto> (7::nat)] level_id_base [] flush) ''x''"
  by (simp add: add_product_def products_add_def make_flush_def base_def is_flush_def
      contains_product_def)

text \<open>
  Claim C8, amended. Every store is in exactly one of the stages process and flush;
  \<open>is_flush()\<close> is true if and only if the stage is flush; a store produced by
  \<open>make_flush()\<close> is a sibling of the store it comes from (same parent, same level
  identifier) with stage flush and an empty product map; every store that a factory
  function creates in the flush stage has an empty product map (the child made with a
  stage has none, and the base store, a child made with products and a continuation are
  process stores); \<open>add_product\<close> keeps the stage of the store and the store then
  contains the product.
\<close>

theorem flush_stores_created_empty:
  "(stage s = process) = (stage s \<noteq> flush)
   \<and> is_flush s = (stage s = flush)
   \<and> parent (make_flush src s) = parent s
   \<and> store_id (make_flush src s) = store_id s
   \<and> stage (make_flush src s) = flush
   \<and> products (make_flush src s) = Map.empty
   \<and> products (make_child_stage s n name src st) = Map.empty
   \<and> \<not> is_flush (base :: 'p product_store)
   \<and> \<not> is_flush (make_child s n name src ps)
   \<and> \<not> is_flush (make_continuation s src ps)
   \<and> (add_product s key t = Inr s' \<longrightarrow> stage s' = stage s \<and> contains_product s' key)"
  by (cases "stage s")
    (auto simp add: is_flush_def make_flush_def make_child_stage_def base_def make_child_def
      make_continuation_def add_product_def products_add_def contains_product_def
      split: if_splits)

theorem flush_stores_created_empty_witness:
  "add_product (make_child (base :: nat product_store) 1 ''run'' [] Map.empty) ''x'' 7
     = Inr (make_child base 1 ''run'' [] [''x'' \<mapsto> 7])
   \<and> stage (make_child (base :: nat product_store) 1 ''run'' [] [''x'' \<mapsto> 7]) = process
   \<and> contains_product (make_child (base :: nat product_store) 1 ''run'' [] [''x'' \<mapsto> 7]) ''x''
   \<and> products (make_flush [] (make_child (base :: nat product_store) 1 ''run'' []
        [''x'' \<mapsto> 7])) = Map.empty"
proof -
  let ?run = "make_child (base :: nat product_store) 1 ''run'' [] Map.empty"
  let ?run' = "make_child (base :: nat product_store) 1 ''run'' [] [''x'' \<mapsto> 7]"
  have add: "add_product ?run ''x'' 7 = Inr ?run'"
    by (simp add: add_product_def products_add_def make_child_def)
  have "add_product ?run ''x'' 7 = Inr ?run' \<longrightarrow>
      stage ?run' = stage ?run \<and> contains_product ?run' ''x''"
    using flush_stores_created_empty[where s = ?run and key = "''x''" and t = 7 and s' = ?run']
    by blast
  with add have "stage ?run' = stage ?run" and "contains_product ?run' ''x''"
    by simp_all
  moreover have "stage ?run = process" by (simp add: make_child_def)
  moreover have "products (make_flush [] ?run') = Map.empty"
    using flush_stores_created_empty[where s = ?run' and src = "[]"] by blast
  ultimately show ?thesis using add by simp
qed


section \<open>Properties of fold registration\<close>

text \<open>
  Claim C9. When \<open>graph_proxy::fold\<close> is called without a concurrency and without a
  partition argument, the fold node that the registration creates has the partition key
  \<open>"job"\<close> and the serial concurrency limit, which is one permit.
\<close>

theorem fold_defaults:
  "api_partition (graph_proxy_fold mk_name p name f None None init_args) = ''job''
   \<and> api_concurrency (graph_proxy_fold mk_name p name f None None init_args) = serial
   \<and> concurrency_value serial = 1
   \<and> map_option (\<lambda>c. node_partition (c preds outs))
        (creator (fst (fold_api_input_family
           (graph_proxy_fold mk_name p name f None None init_args) inputs))) = Some ''job''
   \<and> map_option (\<lambda>c. node_concurrency (c preds outs))
        (creator (fst (fold_api_input_family
           (graph_proxy_fold mk_name p name f None None init_args) inputs))) = Some 1"
  by (simp add: graph_proxy_fold_def glue_fold_def fold_api_init_def fold_api_input_family_def
      set_creator_def serial_def)


section \<open>Properties of the batch write\<close>

lemma names_index_fst: "fst (names_index m t) = type_name m t"
  by (simp add: names_index_def type_name_def split: option.splits)

lemma names_index_type_name: "type_name (snd (names_index m t)) u = type_name m u"
  by (simp add: names_index_def type_name_def split: option.splits)

lemma collect_products_type_name:
  "type_name (snd (collect_products nm prods batch)) u = type_name nm u"
proof (induction batch arbitrary: nm prods)
  case Nil
  then show ?case by simp
next
  case (Cons pb batch)
  then show ?case
    using names_index_type_name[of nm "pb_type pb" u]
    by (simp add: split_beta)
qed

lemma register_writes_ops:
  "fst (register_writes cr nm ops batch) =
     ops @ map (\<lambda>pb. RegisterWrite cr (pb_label pb) (pb_data pb) (type_name nm (pb_type pb))) batch"
proof (induction batch arbitrary: nm ops)
  case Nil
  then show ?case by simp
next
  case (Cons pb batch)
  have "\<And>u. type_name (snd (names_index nm (pb_type pb))) u = type_name nm u"
    by (rule names_index_type_name)
  with Cons show ?case
    by (simp add: split_beta names_index_fst)
qed

lemma filter_register_ops [simp]:
  "filter is_RegisterWrite (map (register_op cr nm) batch) = map (register_op cr nm) batch"
  "filter is_CommitOutput (map (register_op cr nm) batch) = []"
  by (induction batch) (simp_all add: register_op_def is_RegisterWrite_def is_CommitOutput_def)

lemma write_batch_ok:
  assumes "m_product_to_config fi (pb_label pb0) = Some cfg"
  shows "write_batch fi cr (pb0 # rest) =
     Inr (fi\<lparr>m_pers := m_pers fi
                @ CreateContainers cr (fst (collect_products (names fi) Map.empty (pb0 # rest)))
                # map (register_op cr (names fi)) (pb0 # rest)
                @ [CommitOutput cr (pb_id pb0)],
              names := snd (register_writes cr
                  (snd (collect_products (names fi) Map.empty (pb0 # rest)))
                  (m_pers fi @ [CreateContainers cr
                      (fst (collect_products (names fi) Map.empty (pb0 # rest)))])
                  (pb0 # rest))\<rparr>)"
proof -
  have "\<And>u. type_name (snd (collect_products (names fi) Map.empty (pb0 # rest))) u
          = type_name (names fi) u"
    by (rule collect_products_type_name)
  then have eq: "\<And>ops. fst (register_writes cr
          (snd (collect_products (names fi) Map.empty (pb0 # rest))) ops (pb0 # rest))
      = ops @ map (register_op cr (names fi)) (pb0 # rest)"
    unfolding register_writes_ops register_op_def by simp
  show ?thesis
    unfolding write_batch_def using assms
    apply (simp only: list.case option.case Let_def split_beta eq)
    apply simp
    done
qed

text \<open>
  Claim C10. \<open>form_interface::write(creator, batch)\<close> with an empty batch returns
  without any call on the persistence layer. With a batch that is not empty and a first
  element whose label has a configuration, it makes, after \<open>createContainers\<close>, exactly
  one \<open>registerWrite\<close> per element of the batch, in order, and then exactly one
  \<open>commitOutput\<close>, whose id is the id of the first element. The only lookup that can
  fail is the one of the first element's label: the call raises its error exactly when
  that label has no configuration, whatever the other elements are.
\<close>

theorem write_batch_calls:
  "write_batch fi cr [] = Inr fi
   \<and> (m_product_to_config fi (pb_label pb0) \<noteq> None \<longrightarrow>
        (\<exists>fi' new. write_batch fi cr (pb0 # rest) = Inr fi'
           \<and> m_pers fi' = m_pers fi @ new
           \<and> new = CreateContainers cr (fst (collect_products (names fi) Map.empty (pb0 # rest)))
                   # map (register_op cr (names fi)) (pb0 # rest)
                   @ [CommitOutput cr (pb_id pb0)]
           \<and> filter is_RegisterWrite new = map (register_op cr (names fi)) (pb0 # rest)
           \<and> filter is_CommitOutput new = [CommitOutput cr (pb_id pb0)]
           \<and> last new = CommitOutput cr (pb_id pb0)))
   \<and> (m_product_to_config fi (pb_label pb0) = None \<longrightarrow>
        write_batch fi cr (pb0 # rest)
          = Inl (Runtime_error (''No configuration found for product: '' @ pb_label pb0)))"
proof (intro conjI impI)
  show "write_batch fi cr [] = Inr fi" by (simp add: write_batch_def)
next
  assume "m_product_to_config fi (pb_label pb0) \<noteq> None"
  then obtain cfg where "m_product_to_config fi (pb_label pb0) = Some cfg" by auto
  from write_batch_ok[OF this, of cr rest]
  show "\<exists>fi' new. write_batch fi cr (pb0 # rest) = Inr fi'
           \<and> m_pers fi' = m_pers fi @ new
           \<and> new = CreateContainers cr (fst (collect_products (names fi) Map.empty (pb0 # rest)))
                   # map (register_op cr (names fi)) (pb0 # rest)
                   @ [CommitOutput cr (pb_id pb0)]
           \<and> filter is_RegisterWrite new = map (register_op cr (names fi)) (pb0 # rest)
           \<and> filter is_CommitOutput new = [CommitOutput cr (pb_id pb0)]
           \<and> last new = CommitOutput cr (pb_id pb0)"
    by (simp add: is_RegisterWrite_def is_CommitOutput_def register_op_def[symmetric]
        del: list.map)
next
  assume "m_product_to_config fi (pb_label pb0) = None"
  then show "write_batch fi cr (pb0 # rest)
          = Inl (Runtime_error (''No configuration found for product: '' @ pb_label pb0))"
    by (simp add: write_batch_def)
qed

theorem write_batch_calls_witness:
  "(let fi = \<lparr>m_pers = [], names = [(0::nat) \<mapsto> ''std::vector<float>''],
              m_product_to_config = [''trackStart'' \<mapsto> ()]\<rparr>;
        pb0 = \<lparr>pb_label = ''trackStart'', pb_id = ''seg0'', pb_data = (11::nat), pb_type = 0\<rparr>;
        pb1 = \<lparr>pb_label = ''trackNumberHits'', pb_id = ''seg1'', pb_data = 12, pb_type = 1\<rparr>
    in (\<exists>fi'. write_batch fi ''Toy_Tracker'' [pb0, pb1] = Inr fi'
          \<and> filter is_RegisterWrite (m_pers fi')
              = [RegisterWrite ''Toy_Tracker'' ''trackStart'' 11 ''std::vector<float>'',
                 RegisterWrite ''Toy_Tracker'' ''trackNumberHits'' 12 []]
          \<and> filter is_CommitOutput (m_pers fi') = [CommitOutput ''Toy_Tracker'' ''seg0''])
       \<and> write_batch fi ''Toy_Tracker'' [pb1, pb0]
           = Inl (Runtime_error ''No configuration found for product: trackNumberHits''))"
proof -
  let ?fi = "\<lparr>m_pers = [], names = [(0::nat) \<mapsto> ''std::vector<float>''],
              m_product_to_config = [''trackStart'' \<mapsto> ()]\<rparr>"
  let ?pb0 = "\<lparr>pb_label = ''trackStart'', pb_id = ''seg0'', pb_data = (11::nat), pb_type = (0::nat)\<rparr>"
  let ?pb1 = "\<lparr>pb_label = ''trackNumberHits'', pb_id = ''seg1'', pb_data = (12::nat), pb_type = (1::nat)\<rparr>"
  have ok: "m_product_to_config ?fi (pb_label ?pb0) \<noteq> None" by simp
  have no: "m_product_to_config ?fi (pb_label ?pb1) = None" by simp
  note A = write_batch_calls[of ?fi "''Toy_Tracker''" ?pb0 "[?pb1]",
      THEN conjunct2, THEN conjunct1, THEN mp, OF ok]
  have first: "\<exists>fi'. write_batch ?fi ''Toy_Tracker'' [?pb0, ?pb1] = Inr fi'
          \<and> filter is_RegisterWrite (m_pers fi')
              = [RegisterWrite ''Toy_Tracker'' ''trackStart'' 11 ''std::vector<float>'',
                 RegisterWrite ''Toy_Tracker'' ''trackNumberHits'' 12 []]
          \<and> filter is_CommitOutput (m_pers fi') = [CommitOutput ''Toy_Tracker'' ''seg0'']"
    using A
    by (elim exE conjE)
      (simp add: register_op_def type_name_def is_RegisterWrite_def is_CommitOutput_def)
  note B = write_batch_calls[of ?fi "''Toy_Tracker''" ?pb1 "[?pb0]",
      THEN conjunct2, THEN conjunct2, THEN mp, OF no]
  have second: "write_batch ?fi ''Toy_Tracker'' [?pb1, ?pb0]
           = Inl (Runtime_error ''No configuration found for product: trackNumberHits'')"
    using B by simp
  show ?thesis
    unfolding Let_def using first second by (rule conjI)
qed

end
